theory Spec2Isabelle
  imports Main "HOL-Library.Char_ord"
begin

section \<open>Data model\<close>

text \<open>
  The program \<^verbatim>\<open>redact-sensitive.js\<close> walks a parsed JSON document and removes or masks
  sensitive properties. A JSON value is one of the six JavaScript shapes that
  \<^verbatim>\<open>JSON.parse\<close> produces. Numbers are never inspected by the program, so their type is a
  parameter. Strings are byte strings: the case conversions below are the ASCII ones.

  An object is represented by the list that \<^verbatim>\<open>Object.entries\<close> returns for it: its own
  properties, in enumeration order. The program assigns the properties of the result in
  that same order, so the enumeration order of the result is the order of assignment.
  A JavaScript object holds every property name once; \<open>wf_json\<close> states this for the
  representation.
\<close>

datatype 'n json =
    JNull
  | JBool bool
  | JNum 'n
  | JStr string
  | JArr "'n json list"
  | JObj "(string \<times> 'n json) list"

type_synonym 'n entries = "(string \<times> 'n json) list"

fun wf_json :: "'n json \<Rightarrow> bool"
  and wf_items :: "'n json list \<Rightarrow> bool"
  and wf_entries :: "'n entries \<Rightarrow> bool" where
  "wf_json (JArr items) = wf_items items"
| "wf_json (JObj es) = (distinct (map fst es) \<and> wf_entries es)"
| "wf_json JNull = True"
| "wf_json (JBool b) = True"
| "wf_json (JNum n) = True"
| "wf_json (JStr s) = True"
| "wf_items [] = True"
| "wf_items (v # vs) = (wf_json v \<and> wf_items vs)"
| "wf_entries [] = True"
| "wf_entries ((k, v) # es) = (wf_json v \<and> wf_entries es)"

text \<open>\<^verbatim>\<open>value !== null && typeof value === "object"\<close>: arrays and objects.\<close>

fun isObjectLike :: "'n json \<Rightarrow> bool" where
  "isObjectLike (JArr items) = True"
| "isObjectLike (JObj es) = True"
| "isObjectLike v = False"

text \<open>An own property is created or updated: an existing property keeps its place and
  takes the new value, a new property goes to the end.\<close>

fun setOwnProperty :: "'n entries \<Rightarrow> string \<Rightarrow> 'n json \<Rightarrow> 'n entries" where
  "setOwnProperty [] key v = [(key, v)]"
| "setOwnProperty ((k, x) # ps) key v =
     (if k = key then (k, v) # ps else (k, x) # setOwnProperty ps key v)"

text \<open>
  \<^verbatim>\<open>redacted[key] = value\<close>, for the object \<^verbatim>\<open>redacted\<close> that starts as \<^verbatim>\<open>{}\<close>. The
  assignment looks the name up along the prototype chain. \<^verbatim>\<open>Object.prototype\<close> has one
  accessor property, \<^verbatim>\<open>__proto__\<close>: for this name the assignment calls the setter, which
  replaces the prototype of \<^verbatim>\<open>redacted\<close> when the value is an object or \<^verbatim>\<open>null\<close> and does
  nothing when it is another primitive. In both cases \<^verbatim>\<open>redacted\<close> gets no own property,
  and \<^verbatim>\<open>Object.entries\<close> and \<^verbatim>\<open>JSON.stringify\<close> read own properties only. (In the
  input, which \<^verbatim>\<open>JSON.parse\<close> built, \<^verbatim>\<open>__proto__\<close> is an own property like any other.)
  For every other name the assignment creates or updates an own property.
\<close>

definition setProperty :: "'n entries \<Rightarrow> string \<Rightarrow> 'n json \<Rightarrow> 'n entries" where
  "setProperty redacted key v =
     (if key = ''__proto__'' then redacted else setOwnProperty redacted key v)"

subsection \<open>Strings\<close>

definition upperAZ :: string where
  "upperAZ = ''ABCDEFGHIJKLMNOPQRSTUVWXYZ''"

definition lowerAZ :: string where
  "lowerAZ = ''abcdefghijklmnopqrstuvwxyz''"

definition toLowerChar :: "char \<Rightarrow> char" where
  "toLowerChar c = (case map_of (zip upperAZ lowerAZ) c of Some d \<Rightarrow> d | None \<Rightarrow> c)"

definition toUpperChar :: "char \<Rightarrow> char" where
  "toUpperChar c = (case map_of (zip lowerAZ upperAZ) c of Some d \<Rightarrow> d | None \<Rightarrow> c)"

text \<open>\<^verbatim>\<open>String.prototype.toLowerCase\<close>.\<close>

definition toLowerCase :: "string \<Rightarrow> string" where
  "toLowerCase s = map toLowerChar s"

fun startsWith :: "string \<Rightarrow> string \<Rightarrow> bool" where
  "startsWith s [] = True"
| "startsWith [] (c # sub) = False"
| "startsWith (d # s) (c # sub) = (d = c \<and> startsWith s sub)"

text \<open>\<^verbatim>\<open>String.prototype.includes\<close>: the argument occurs somewhere in the string.\<close>

fun str_includes :: "string \<Rightarrow> string \<Rightarrow> bool" where
  "str_includes [] sub = startsWith [] sub"
| "str_includes (d # s) sub = (startsWith (d # s) sub \<or> str_includes s sub)"

subsection \<open>Regular expressions\<close>

text \<open>
  The fragment of regular-expression syntax in which the program's patterns are written:
  the anchors \<^verbatim>\<open>^\<close> and \<^verbatim>\<open>$\<close>, character classes given by ranges, literal text,
  concatenation and the bounded repetition \<^verbatim>\<open>{m,n}\<close>; and the flag \<^verbatim>\<open>i\<close>.
\<close>

datatype regex =
    Bol
  | Eol
  | CharClass "(char \<times> char) list"
  | Lit string
  | Seq regex regex
  | Rep nat nat regex

record RegExp =
  source :: regex
  ignoreCase :: bool

definition inRange :: "char \<Rightarrow> char \<Rightarrow> char \<Rightarrow> bool" where
  "inRange lo hi c = (lo \<le> c \<and> c \<le> hi)"

definition inClass :: "bool \<Rightarrow> (char \<times> char) list \<Rightarrow> char \<Rightarrow> bool" where
  "inClass ic rs c =
     list_ex (\<lambda>(lo, hi). inRange lo hi c \<or>
        (ic \<and> (inRange lo hi (toLowerChar c) \<or> inRange lo hi (toUpperChar c)))) rs"

definition charEq :: "bool \<Rightarrow> char \<Rightarrow> char \<Rightarrow> bool" where
  "charEq ic a b = (if ic then toUpperChar a = toUpperChar b else a = b)"

primrec iter :: "(nat \<Rightarrow> nat list) \<Rightarrow> nat \<Rightarrow> nat \<Rightarrow> nat list" where
  "iter f 0 i = [i]"
| "iter f (Suc k) i = concat (map (iter f k) (f i))"

text \<open>\<open>ends r ic s i\<close>: the positions at which a match of \<open>r\<close> that starts at position
  \<open>i\<close> of the input \<open>s\<close> can end.\<close>

primrec ends :: "regex \<Rightarrow> bool \<Rightarrow> string \<Rightarrow> nat \<Rightarrow> nat list" where
  "ends Bol ic s i = (if i = 0 then [i] else [])"
| "ends Eol ic s i = (if i = length s then [i] else [])"
| "ends (CharClass rs) ic s i =
     (if i < length s \<and> inClass ic rs (s ! i) then [Suc i] else [])"
| "ends (Lit l) ic s i =
     (if list_all2 (charEq ic) l (take (length l) (drop i s)) then [i + length l] else [])"
| "ends (Seq a b) ic s i = concat (map (ends b ic s) (ends a ic s i))"
| "ends (Rep m n r) ic s i = concat (map (\<lambda>k. iter (ends r ic s) k i) [m..<Suc n])"

text \<open>\<^verbatim>\<open>RegExp.prototype.test\<close> of a pattern without the flags \<^verbatim>\<open>g\<close> and \<^verbatim>\<open>y\<close>: a search
  for a match that starts at any position of the input.\<close>

definition regex_test :: "RegExp \<Rightarrow> string \<Rightarrow> bool" where
  "regex_test re s =
     list_ex (\<lambda>i. ends (source re) (ignoreCase re) s i \<noteq> []) [0..<Suc (length s)]"

subsection \<open>Configuration\<close>

text \<open>
  An entry of \<^verbatim>\<open>sensitivePatterns\<close> is a regular-expression object in the defaults; a
  configuration file is JSON, so what it supplies there is a string.
\<close>

datatype pattern = PRegExp RegExp | PString string

datatype js_error = TypeError | SyntaxError | IOError

record config =
  sensitiveKeys :: "string list"
  sensitiveProperties :: "string list"
  sensitivePatterns :: "pattern list"
  redactionText :: string
  preserveKeys :: bool

fun isRegExp :: "pattern \<Rightarrow> bool" where
  "isRegExp (PRegExp re) = True"
| "isRegExp (PString p) = False"

text \<open>A rule set in the sense of the specification: every value pattern is a
  regular-expression object.\<close>

definition compiled :: "config \<Rightarrow> bool" where
  "compiled config = list_all isRegExp (sensitivePatterns config)"

definition anchored :: "regex \<Rightarrow> regex" where
  "anchored body = Seq Bol (Seq body Eol)"

definition hexClass :: regex where
  "hexClass = CharClass [(CHR ''a'', CHR ''f''), (CHR ''0'', CHR ''9'')]"

definition pinPattern :: RegExp where
  "pinPattern =
     \<lparr>source = anchored (Rep 4 6 (CharClass [(CHR ''0'', CHR ''9'')])), ignoreCase = False\<rparr>"

definition uuidPattern :: RegExp where
  "uuidPattern =
     \<lparr>source = anchored
        (Seq (Rep 8 8 hexClass) (Seq (Lit ''-'')
        (Seq (Rep 4 4 hexClass) (Seq (Lit ''-'')
        (Seq (Rep 4 4 hexClass) (Seq (Lit ''-'')
        (Seq (Rep 4 4 hexClass) (Seq (Lit ''-'')
        (Rep 12 12 hexClass))))))))),
      ignoreCase = True\<rparr>"

definition DEFAULT_CONFIG :: config where
  "DEFAULT_CONFIG =
     \<lparr>sensitiveKeys =
        [''password'', ''pin'', ''email'', ''uuid'', ''secret'', ''token'', ''key'',
         ''credential'', ''auth'', ''login'', ''passcode'', ''security''],
      sensitiveProperties =
        [''password'', ''pin'', ''emailAddress'', ''uuid'', ''secretKey'', ''accessToken'',
         ''refreshToken'', ''apiKey'', ''privateKey'', ''creditCardNumber'', ''cvv'', ''ssn'',
         ''socialSecurityNumber''],
      sensitivePatterns =
        [PRegExp pinPattern,
         PRegExp uuidPattern,
         PRegExp \<lparr>source = anchored (Lit ''testpass123!''), ignoreCase = True\<rparr>,
         PRegExp \<lparr>source = anchored (Lit ''fakepassword456''), ignoreCase = True\<rparr>,
         PRegExp \<lparr>source = anchored (Lit ''test@example.com''), ignoreCase = True\<rparr>],
      redactionText = ''[REDACTED]'',
      preserveKeys = False\<rparr>"

text \<open>
  The recognised fields of a parsed configuration file, typed as the help text of the
  program documents them; a field that the file does not define is \<open>None\<close>.
\<close>

record user_config =
  user_sensitiveKeys :: "string list option"
  user_sensitiveProperties :: "string list option"
  user_sensitivePatterns :: "string list option"
  user_redactionText :: "string option"
  user_preserveKeys :: "bool option"

text \<open>\<^verbatim>\<open>{ ...DEFAULT_CONFIG, ...userConfig }\<close>: a property of the second object
  replaces the property of that name of the first.\<close>

definition spread :: "config \<Rightarrow> user_config \<Rightarrow> config" where
  "spread base u =
     \<lparr>sensitiveKeys =
        (case user_sensitiveKeys u of None \<Rightarrow> sensitiveKeys base | Some ks \<Rightarrow> ks),
      sensitiveProperties =
        (case user_sensitiveProperties u of None \<Rightarrow> sensitiveProperties base | Some ps \<Rightarrow> ps),
      sensitivePatterns =
        (case user_sensitivePatterns u of None \<Rightarrow> sensitivePatterns base
         | Some ss \<Rightarrow> map PString ss),
      redactionText =
        (case user_redactionText u of None \<Rightarrow> redactionText base | Some t \<Rightarrow> t),
      preserveKeys =
        (case user_preserveKeys u of None \<Rightarrow> preserveKeys base | Some b \<Rightarrow> b)\<rparr>"

section \<open>Operations\<close>

text \<open>
  \<open>loadConfig\<close>. The file system and the JSON parser are parameters: \<open>readFileSync\<close>
  gives the content of a path or the error it throws, \<open>JSON_parse\<close> the parsed
  document or the error it throws. The \<^verbatim>\<open>catch\<close> block returns the defaults for
  either error. \<^verbatim>\<open>!configPath\<close> holds for an absent and for an empty path.
\<close>

definition loadConfig ::
  "(string \<Rightarrow> js_error + string) \<Rightarrow> (string \<Rightarrow> js_error + user_config) \<Rightarrow>
     string option \<Rightarrow> config" where
  "loadConfig readFileSync JSON_parse configPath =
     (case configPath of
        None \<Rightarrow> DEFAULT_CONFIG
      | Some p \<Rightarrow>
          if p = [] then DEFAULT_CONFIG
          else (case readFileSync p of
                  Inl e \<Rightarrow> DEFAULT_CONFIG
                | Inr configData \<Rightarrow>
                    (case JSON_parse configData of
                       Inl e \<Rightarrow> DEFAULT_CONFIG
                     | Inr userConfig \<Rightarrow> spread DEFAULT_CONFIG userConfig)))"

definition isSensitiveKey :: "string \<Rightarrow> config \<Rightarrow> bool" where
  "isSensitiveKey key config =
     (let keyLower = toLowerCase key in
      if keyLower \<in> set (sensitiveProperties config) then True
      else list_ex (\<lambda>pattern. str_includes keyLower (toLowerCase pattern)) (sensitiveKeys config))"

text \<open>\<^verbatim>\<open>pattern.test(value)\<close>: a string has no method \<^verbatim>\<open>test\<close>, the call throws a
  \<^verbatim>\<open>TypeError\<close>.\<close>

fun test :: "pattern \<Rightarrow> string \<Rightarrow> js_error + bool" where
  "test (PRegExp re) s = Inr (regex_test re s)"
| "test (PString p) s = Inl TypeError"

text \<open>\<^verbatim>\<open>Array.prototype.some\<close> with the callback \<open>test\<close>: it stops at the first pattern
  that succeeds, and at the first call that throws.\<close>

fun some_test :: "pattern list \<Rightarrow> string \<Rightarrow> js_error + bool" where
  "some_test [] s = Inr False"
| "some_test (p # ps) s =
     (case test p s of
        Inl e \<Rightarrow> Inl e
      | Inr b \<Rightarrow> if b then Inr True else some_test ps s)"

fun isSensitiveValue :: "'n json \<Rightarrow> config \<Rightarrow> js_error + bool" where
  "isSensitiveValue (JStr s) config = some_test (sensitivePatterns config) s"
| "isSensitiveValue v config = Inr False"

text \<open>
  \<open>redactObject\<close>. \<open>redactItems\<close> is the \<^verbatim>\<open>obj.map\<close> of the array branch,
  \<open>redactEntries\<close> the \<^verbatim>\<open>for\<close> loop of the object branch, with the object
  \<^verbatim>\<open>redacted\<close> under construction as its last argument. The argument \<^verbatim>\<open>parentPath\<close>
  of the source only builds the string \<^verbatim>\<open>currentPath\<close>, which is passed on and never
  read; it is left out.
\<close>

fun redactObject :: "'n json \<Rightarrow> config \<Rightarrow> js_error + 'n json"
  and redactItems :: "'n json list \<Rightarrow> config \<Rightarrow> js_error + 'n json list"
  and redactEntries :: "'n entries \<Rightarrow> config \<Rightarrow> 'n entries \<Rightarrow> js_error + 'n entries" where
  "redactObject JNull config = Inr JNull"
| "redactObject (JBool b) config = Inr (JBool b)"
| "redactObject (JNum n) config = Inr (JNum n)"
| "redactObject (JStr s) config = Inr (JStr s)"
| "redactObject (JArr items) config =
     (case redactItems items config of
        Inl e \<Rightarrow> Inl e
      | Inr ys \<Rightarrow> Inr (JArr ys))"
| "redactObject (JObj es) config =
     (case redactEntries es config [] of
        Inl e \<Rightarrow> Inl e
      | Inr redacted \<Rightarrow> Inr (JObj redacted))"
| "redactItems [] config = Inr []"
| "redactItems (item # rest) config =
     (case redactObject item config of
        Inl e \<Rightarrow> Inl e
      | Inr y \<Rightarrow>
          (case redactItems rest config of
             Inl e \<Rightarrow> Inl e
           | Inr ys \<Rightarrow> Inr (y # ys)))"
| "redactEntries [] config redacted = Inr redacted"
| "redactEntries ((key, v) # rest) config redacted =
     (if isSensitiveKey key config then
        (if preserveKeys config
         then redactEntries rest config (setProperty redacted key (JStr (redactionText config)))
         else redactEntries rest config redacted)
      else if isObjectLike v then
        (case redactObject v config of
           Inl e \<Rightarrow> Inl e
         | Inr w \<Rightarrow> redactEntries rest config (setProperty redacted key w))
      else
        (case isSensitiveValue v config of
           Inl e \<Rightarrow> Inl e
         | Inr b \<Rightarrow>
             if b then redactEntries rest config
                         (setProperty redacted key (JStr (redactionText config)))
             else redactEntries rest config (setProperty redacted key v)))"

section \<open>Notions of the specification, and examples\<close>

text \<open>A parser that reads the document \<open>d\<close> as \<open>u\<close> and rejects every other text.\<close>

definition parsesTo :: "string \<Rightarrow> user_config \<Rightarrow> string \<Rightarrow> js_error + user_config" where
  "parsesTo d u x = (if x = d then Inr u else Inl SyntaxError)"

text \<open>A configuration file as the help text shows one: value patterns given as strings.
  The second string is not the source of any regular expression.\<close>

definition fileData :: string where
  \<open>fileData = ''{"sensitivePatterns": ["[a-f0-9]{8}-[a-f0-9]{4}", "("]}''\<close>

definition fileConfig :: user_config where
  "fileConfig =
     \<lparr>user_sensitiveKeys = None,
      user_sensitiveProperties = None,
      user_sensitivePatterns = Some [''[a-f0-9]{8}-[a-f0-9]{4}'', ''(''],
      user_redactionText = None,
      user_preserveKeys = None\<rparr>"

text \<open>A configuration file that defines the key patterns only.\<close>

definition fooData :: string where
  \<open>fooData = ''{"sensitiveKeys": ["foo"]}''\<close>

definition fooConfig :: user_config where
  "fooConfig =
     \<lparr>user_sensitiveKeys = Some [''foo''],
      user_sensitiveProperties = None,
      user_sensitivePatterns = None,
      user_redactionText = None,
      user_preserveKeys = None\<rparr>"

text \<open>
  A pattern tested against the entire string, as the specification words the value
  test: the match starts at the first position and ends at the end of the input.
\<close>

definition full_match :: "RegExp \<Rightarrow> string \<Rightarrow> bool" where
  "full_match re s = (length s \<in> set (ends (source re) (ignoreCase re) s 0))"

fun pattern_full_match :: "pattern \<Rightarrow> string \<Rightarrow> bool" where
  "pattern_full_match (PRegExp re) s = full_match re s"
| "pattern_full_match (PString p) s = False"

fun isSensitiveValue_spec :: "'n json \<Rightarrow> config \<Rightarrow> bool" where
  "isSensitiveValue_spec (JStr s) config =
     list_ex (\<lambda>p. pattern_full_match p s) (sensitivePatterns config)"
| "isSensitiveValue_spec v config = False"

text \<open>The first pattern of the configuration format that the help text shows,
  \<^verbatim>\<open>\d{4,6}$\<close>, as a regular-expression object: it has no anchor at its start.\<close>

definition digitsAtEnd :: RegExp where
  "digitsAtEnd =
     \<lparr>source = Seq (Rep 4 6 (CharClass [(CHR ''0'', CHR ''9'')])) Eol, ignoreCase = False\<rparr>"

definition searchConfig :: config where
  "searchConfig = DEFAULT_CONFIG\<lparr>sensitivePatterns := [PRegExp digitsAtEnd]\<rparr>"

text \<open>A pattern of the form \<^verbatim>\<open>^body$\<close>, as every default pattern is.\<close>

fun isAnchored :: "pattern \<Rightarrow> bool" where
  "isAnchored (PRegExp re) =
     (case source re of
        Seq Bol (Seq body Eol) \<Rightarrow> True
      | _ \<Rightarrow> False)"
| "isAnchored (PString p) = False"

text \<open>The condition on one object of the output: without \<^verbatim>\<open>preserveKeys\<close> it has no
  sensitive key, with it every sensitive key holds the redaction text.\<close>

definition object_ok :: "config \<Rightarrow> 'n entries \<Rightarrow> bool" where
  "object_ok config es =
     (if preserveKeys config
      then list_all (\<lambda>(k, v). isSensitiveKey k config \<longrightarrow> v = JStr (redactionText config)) es
      else list_all (\<lambda>(k, v). \<not> isSensitiveKey k config) es)"

text \<open>\<open>all_objects P v\<close>: every object that occurs in \<open>v\<close>, at any depth, satisfies
  \<open>P\<close>.\<close>

fun all_objects :: "('n entries \<Rightarrow> bool) \<Rightarrow> 'n json \<Rightarrow> bool"
  and all_objects_items :: "('n entries \<Rightarrow> bool) \<Rightarrow> 'n json list \<Rightarrow> bool"
  and all_objects_entries :: "('n entries \<Rightarrow> bool) \<Rightarrow> 'n entries \<Rightarrow> bool" where
  "all_objects P (JArr items) = all_objects_items P items"
| "all_objects P (JObj es) = (P es \<and> all_objects_entries P es)"
| "all_objects P JNull = True"
| "all_objects P (JBool b) = True"
| "all_objects P (JNum n) = True"
| "all_objects P (JStr s) = True"
| "all_objects_items P [] = True"
| "all_objects_items P (v # vs) = (all_objects P v \<and> all_objects_items P vs)"
| "all_objects_entries P [] = True"
| "all_objects_entries P ((k, v) # es) = (all_objects P v \<and> all_objects_entries P es)"

text \<open>\<open>clean config v\<close>: no key anywhere in \<open>v\<close> is sensitive, and no property value
  anywhere in \<open>v\<close> is a sensitive value.\<close>

fun clean :: "config \<Rightarrow> 'n json \<Rightarrow> bool"
  and clean_items :: "config \<Rightarrow> 'n json list \<Rightarrow> bool"
  and clean_entries :: "config \<Rightarrow> 'n entries \<Rightarrow> bool" where
  "clean config (JArr items) = clean_items config items"
| "clean config (JObj es) = clean_entries config es"
| "clean config JNull = True"
| "clean config (JBool b) = True"
| "clean config (JNum n) = True"
| "clean config (JStr s) = True"
| "clean_items config [] = True"
| "clean_items config (v # vs) = (clean config v \<and> clean_items config vs)"
| "clean_entries config [] = True"
| "clean_entries config ((k, v) # es) =
     (\<not> isSensitiveKey k config \<and> isSensitiveValue v config \<noteq> Inr True \<and>
      clean config v \<and> clean_entries config es)"

text \<open>\<open>plain_keys v\<close>: no object in \<open>v\<close> has a property named \<^verbatim>\<open>__proto__\<close>.\<close>

fun plain_keys :: "'n json \<Rightarrow> bool"
  and plain_keys_items :: "'n json list \<Rightarrow> bool"
  and plain_keys_entries :: "'n entries \<Rightarrow> bool" where
  "plain_keys (JArr items) = plain_keys_items items"
| "plain_keys (JObj es) = plain_keys_entries es"
| "plain_keys JNull = True"
| "plain_keys (JBool b) = True"
| "plain_keys (JNum n) = True"
| "plain_keys (JStr s) = True"
| "plain_keys_items [] = True"
| "plain_keys_items (v # vs) = (plain_keys v \<and> plain_keys_items vs)"
| "plain_keys_entries [] = True"
| "plain_keys_entries ((k, v) # es) =
     (k \<noteq> ''__proto__'' \<and> plain_keys v \<and> plain_keys_entries es)"

text \<open>A rule set under which the name \<^verbatim>\<open>__proto__\<close> is a sensitive key, with
  \<^verbatim>\<open>preserveKeys\<close>.\<close>

definition protoConfig :: config where
  "protoConfig = DEFAULT_CONFIG\<lparr>sensitiveKeys := [''proto''], preserveKeys := True\<rparr>"

text \<open>A property on which a further pass of the loop of \<open>redactObject\<close> changes
  nothing.\<close>

definition stable_entry :: "config \<Rightarrow> string \<times> 'n json \<Rightarrow> bool" where
  "stable_entry config e =
     (case e of (k, w) \<Rightarrow>
        k \<noteq> ''__proto__'' \<and>
        (if isSensitiveKey k config then preserveKeys config \<and> w = JStr (redactionText config)
         else if isObjectLike w then redactObject w config = Inr w
         else isSensitiveValue w config = Inr False \<or> w = JStr (redactionText config)))"

section \<open>Basic facts\<close>

subsection \<open>Property assignment\<close>

lemma map_of_setOwnProperty: "map_of (setOwnProperty ps k v) = (map_of ps)(k \<mapsto> v)"
  by (induction ps k v rule: setOwnProperty.induct) auto

lemma set_setOwnProperty: "set (setOwnProperty ps k v) \<subseteq> insert (k, v) (set ps)"
  by (induction ps k v rule: setOwnProperty.induct) auto

lemma keys_setOwnProperty: "fst ` set (setOwnProperty ps k v) = insert k (fst ` set ps)"
  by (induction ps k v rule: setOwnProperty.induct) auto

lemma distinct_setOwnProperty:
  "distinct (map fst ps) \<Longrightarrow> distinct (map fst (setOwnProperty ps k v))"
  by (induction ps k v rule: setOwnProperty.induct) (auto simp: keys_setOwnProperty)

lemma setOwnProperty_fresh: "k \<notin> fst ` set ps \<Longrightarrow> setOwnProperty ps k v = ps @ [(k, v)]"
  by (induction ps k v rule: setOwnProperty.induct) auto

lemma setProperty_proto: "setProperty ps ''__proto__'' v = ps"
  by (simp add: setProperty_def)

lemma map_of_setProperty:
  "map_of (setProperty ps k v) = (if k = ''__proto__'' then map_of ps else (map_of ps)(k \<mapsto> v))"
  by (simp add: setProperty_def map_of_setOwnProperty)

lemma set_setProperty: "set (setProperty ps k v) \<subseteq> insert (k, v) (set ps)"
  using set_setOwnProperty [of ps k v] by (auto simp: setProperty_def)

lemma distinct_setProperty: "distinct (map fst ps) \<Longrightarrow> distinct (map fst (setProperty ps k v))"
  by (simp add: setProperty_def distinct_setOwnProperty)

lemma setProperty_fresh:
  "k \<noteq> ''__proto__'' \<Longrightarrow> k \<notin> fst ` set ps \<Longrightarrow> setProperty ps k v = ps @ [(k, v)]"
  by (simp add: setProperty_def setOwnProperty_fresh)

subsection \<open>Compiled patterns never throw\<close>

lemma test_compiled: "isRegExp p \<Longrightarrow> test p s = Inr (case p of PRegExp re \<Rightarrow> regex_test re s | PString x \<Rightarrow> False)"
  by (cases p) simp_all

lemma some_test_compiled:
  "list_all isRegExp ps \<Longrightarrow>
     some_test ps s = Inr (\<exists>re. PRegExp re \<in> set ps \<and> regex_test re s)"
proof (induction ps)
  case Nil
  then show ?case by simp
next
  case (Cons p ps)
  then obtain re where p: "p = PRegExp re" by (cases p) auto
  with Cons show ?case by auto
qed

lemma isSensitiveValue_total: "compiled config \<Longrightarrow> \<exists>b. isSensitiveValue v config = Inr b"
  by (cases v) (auto simp: compiled_def some_test_compiled)

lemma redact_total_aux:
  assumes "compiled config"
  shows "\<exists>out. redactObject (v :: 'n json) config = Inr out"
    and "\<exists>ys. redactItems (vs :: 'n json list) config = Inr ys"
    and "\<exists>r. redactEntries (es :: 'n entries) config acc = Inr r"
  using assms
proof (induction v config and vs config and es config acc
    rule: redactObject_redactItems_redactEntries.induct)
  case (8 item rest config)
  then show ?case by fastforce
next
  case (10 key v rest config redacted)
  show ?case
  proof (cases "isSensitiveKey key config")
    case True
    with 10 show ?thesis by (cases "preserveKeys config") simp_all
  next
    case False
    show ?thesis
    proof (cases "isObjectLike v")
      case True
      with False 10 obtain w where "redactObject v config = Inr w" by blast
      with True False 10 show ?thesis by simp
    next
      case prim: False
      obtain b where "isSensitiveValue v config = Inr b"
        using isSensitiveValue_total[OF "10.prems"] by blast
      with prim False 10 show ?thesis by (cases b) simp_all
    qed
  qed
qed auto

lemma redactObject_total: "compiled config \<Longrightarrow> \<exists>out. redactObject v config = Inr out"
  using redact_total_aux(1) by blast

subsection \<open>Arrays and primitive values\<close>

lemma redactObject_primitive: "\<not> isObjectLike v \<Longrightarrow> redactObject v config = Inr v"
  by (cases v) simp_all

lemma redactItems_list_all2:
  "redactItems vs config = Inr ys \<Longrightarrow> list_all2 (\<lambda>v y. redactObject v config = Inr y) vs ys"
  by (induction vs arbitrary: ys) (auto split: sum.splits)

lemma redactItems_primitives:
  "list_all (\<lambda>x. \<not> isObjectLike x) items \<Longrightarrow> redactItems items config = Inr items"
  by (induction items) (simp_all add: redactObject_primitive)

subsection \<open>The loop over the properties\<close>

lemma redactEntries_value_irrelevant:
  "isSensitiveKey key config \<Longrightarrow>
     redactEntries (ps @ (key, v) # qs) config acc = redactEntries (ps @ (key, v') # qs) config acc"
  by (induction ps arbitrary: acc) (auto split: sum.splits)

lemma redactEntries_preserved_key:
  "redactEntries es config acc = Inr out \<Longrightarrow> isSensitiveKey key config \<Longrightarrow> preserveKeys config \<Longrightarrow>
     key \<noteq> ''__proto__'' \<Longrightarrow>
     map_of out key =
       (if key \<in> fst ` set es then Some (JStr (redactionText config)) else map_of acc key)"
proof (induction es arbitrary: acc)
  case Nil
  then show ?case by simp
next
  case (Cons e es)
  obtain k x where e: "e = (k, x)" by (cases e)
  show ?case
    using Cons.prems Cons.IH unfolding e
    by (auto simp: map_of_setProperty split: sum.splits if_splits)
qed

lemma redactEntries_omitted_key:
  "redactEntries es config acc = Inr out \<Longrightarrow> isSensitiveKey key config \<Longrightarrow> \<not> preserveKeys config \<Longrightarrow>
     map_of out key = map_of acc key"
proof (induction es arbitrary: acc)
  case Nil
  then show ?case by simp
next
  case (Cons e es)
  obtain k x where e: "e = (k, x)" by (cases e)
  show ?case
    using Cons.prems Cons.IH unfolding e
    by (auto simp: map_of_setProperty split: sum.splits if_splits)
qed

subsection \<open>The objects of the output\<close>

lemma object_ok_iff:
  "object_ok config es \<longleftrightarrow>
     (\<forall>(k, v)\<in>set es. isSensitiveKey k config \<longrightarrow>
        preserveKeys config \<and> v = JStr (redactionText config))"
  by (auto simp: object_ok_def list_all_iff)

lemma all_objects_entries_iff:
  "all_objects_entries P es \<longleftrightarrow> (\<forall>(k, v)\<in>set es. all_objects P v)"
  by (induction es) auto

lemma all_objects_primitive: "\<not> isObjectLike v \<Longrightarrow> all_objects P v"
  by (cases v) simp_all

lemma object_ok_setProperty:
  assumes "object_ok config acc"
    and "isSensitiveKey k config \<Longrightarrow> preserveKeys config \<and> w = JStr (redactionText config)"
  shows "object_ok config (setProperty acc k w)"
  using assms set_setProperty [of acc k w] unfolding object_ok_iff by blast

lemma all_objects_entries_setProperty:
  assumes "all_objects_entries P acc" and "all_objects P w"
  shows "all_objects_entries P (setProperty acc k w)"
  using assms set_setProperty [of acc k w] unfolding all_objects_entries_iff by blast

lemma redact_objects_ok_aux:
  shows "redactObject (v :: 'n json) config = Inr out \<Longrightarrow> all_objects (object_ok config) out"
    and "redactItems (vs :: 'n json list) config = Inr ys \<Longrightarrow>
           all_objects_items (object_ok config) ys"
    and "redactEntries (es :: 'n entries) config acc = Inr r \<Longrightarrow> object_ok config acc \<Longrightarrow>
           all_objects_entries (object_ok config) acc \<Longrightarrow>
           object_ok config r \<and> all_objects_entries (object_ok config) r"
proof (induction v config and vs config and es config acc arbitrary: out and ys and r
    rule: redactObject_redactItems_redactEntries.induct)
  case (5 items config)
  then show ?case by (auto split: sum.splits)
next
  case (6 es config)
  from "6.prems" obtain r where r: "redactEntries es config [] = Inr r" and o: "out = JObj r"
    by (auto split: sum.splits)
  have "object_ok config ([] :: 'n entries)"
    by (simp add: object_ok_def)
  then have "object_ok config r \<and> all_objects_entries (object_ok config) r"
    using "6.IH" [OF r] by simp
  with o show ?case by simp
next
  case (8 item rest config)
  then show ?case by (auto split: sum.splits)
next
  case (10 key v rest config redacted)
  let ?t = "JStr (redactionText config)"
  let ?P = "object_ok config"
  show ?case
  proof (cases "isSensitiveKey key config")
    case True
    show ?thesis
    proof (cases "preserveKeys config")
      case p: True
      have "redactEntries rest config (setProperty redacted key ?t) = Inr r"
        using "10.prems"(1) True p by simp
      moreover have "?P (setProperty redacted key ?t)"
        using "10.prems"(2) p by (intro object_ok_setProperty) simp_all
      moreover have "all_objects_entries ?P (setProperty redacted key ?t)"
        using "10.prems"(3) by (intro all_objects_entries_setProperty) simp_all
      ultimately show ?thesis
        using "10.IH"(1) [OF True p] by blast
    next
      case p: False
      have "redactEntries rest config redacted = Inr r"
        using "10.prems"(1) True p by simp
      then show ?thesis
        using "10.IH"(2) [OF True p] "10.prems" by blast
    qed
  next
    case False
    show ?thesis
    proof (cases "isObjectLike v")
      case True
      from "10.prems"(1) False True obtain w where w: "redactObject v config = Inr w"
        and rest: "redactEntries rest config (setProperty redacted key w) = Inr r"
        by (auto split: sum.splits)
      have "all_objects ?P w"
        using "10.IH"(3) [OF False True w] .
      then have "all_objects_entries ?P (setProperty redacted key w)"
        using "10.prems"(3) by (intro all_objects_entries_setProperty)
      moreover have "?P (setProperty redacted key w)"
        using "10.prems"(2) False by (intro object_ok_setProperty) simp_all
      ultimately show ?thesis
        using "10.IH"(4) [OF False True w rest] by blast
    next
      case prim: False
      from "10.prems"(1) False prim obtain b where b: "isSensitiveValue v config = Inr b"
        by (auto split: sum.splits)
      show ?thesis
      proof (cases b)
        case True
        have rest: "redactEntries rest config (setProperty redacted key ?t) = Inr r"
          using "10.prems"(1) False prim b True by simp
        have "?P (setProperty redacted key ?t)"
          using "10.prems"(2) False by (intro object_ok_setProperty) simp_all
        moreover have "all_objects_entries ?P (setProperty redacted key ?t)"
          using "10.prems"(3) by (intro all_objects_entries_setProperty) simp_all
        ultimately show ?thesis
          using "10.IH"(5) [OF False prim b True rest] by blast
      next
        case nb: False
        have rest: "redactEntries rest config (setProperty redacted key v) = Inr r"
          using "10.prems"(1) False prim b nb by simp
        have "?P (setProperty redacted key v)"
          using "10.prems"(2) False by (intro object_ok_setProperty) simp_all
        moreover have "all_objects_entries ?P (setProperty redacted key v)"
          using "10.prems"(3) all_objects_primitive [OF prim]
          by (intro all_objects_entries_setProperty)
        ultimately show ?thesis
          using "10.IH"(6) [OF False prim b nb rest] by blast
      qed
    qed
  qed
qed auto

subsection \<open>Documents without sensitive content\<close>

lemma isSensitiveValue_not_True:
  "compiled config \<Longrightarrow> isSensitiveValue v config \<noteq> Inr True \<Longrightarrow> isSensitiveValue v config = Inr False"
  using isSensitiveValue_total [of config v] by auto

lemma redact_clean_aux:
  assumes "compiled config"
  shows "wf_json (v :: 'n json) \<Longrightarrow> clean config v \<Longrightarrow> plain_keys v \<Longrightarrow>
           redactObject v config = Inr v"
    and "wf_items (vs :: 'n json list) \<Longrightarrow> clean_items config vs \<Longrightarrow> plain_keys_items vs \<Longrightarrow>
           redactItems vs config = Inr vs"
    and "wf_entries (es :: 'n entries) \<Longrightarrow> distinct (map fst es) \<Longrightarrow>
           fst ` set acc \<inter> fst ` set es = {} \<Longrightarrow> clean_entries config es \<Longrightarrow>
           plain_keys_entries es \<Longrightarrow>
           redactEntries es config acc = Inr (acc @ es)"
  using assms
proof (induction v config and vs config and es config acc
    rule: redactObject_redactItems_redactEntries.induct)
  case (10 key v rest config redacted)
  note c = "10.prems"(6)
  have nk: "\<not> isSensitiveKey key config" and nv: "isSensitiveValue v config \<noteq> Inr True"
    and cv: "clean config v" and cr: "clean_entries config rest"
    using "10.prems"(4) by simp_all
  have wv: "wf_json v" and wr: "wf_entries rest"
    using "10.prems"(1) by simp_all
  have np: "key \<noteq> ''__proto__''" and pv: "plain_keys v" and pr: "plain_keys_entries rest"
    using "10.prems"(5) by simp_all
  have dr: "distinct (map fst rest)" and fresh: "key \<notin> fst ` set redacted"
    and kr: "key \<notin> fst ` set rest"
    using "10.prems"(2,3) by auto
  have acc: "setProperty redacted key v = redacted @ [(key, v)]"
    using np fresh by (rule setProperty_fresh)
  have disj: "fst ` set (redacted @ [(key, v)]) \<inter> fst ` set rest = {}"
    using "10.prems"(3) kr by auto
  show ?case
  proof (cases "isObjectLike v")
    case True
    have v: "redactObject v config = Inr v"
      using "10.IH"(3) [OF nk True wv cv pv c] .
    have "redactEntries rest config (setProperty redacted key v) = Inr (setProperty redacted key v @ rest)"
      using "10.IH"(4) [OF nk True v wr dr _ cr pr c] disj acc by simp
    then show ?thesis using nk True v acc by simp
  next
    case False
    have b: "isSensitiveValue v config = Inr False"
      using isSensitiveValue_not_True [OF c nv] .
    have "redactEntries rest config (setProperty redacted key v) = Inr (setProperty redacted key v @ rest)"
      using "10.IH"(6) [OF nk False b _ wr dr _ cr pr c] disj acc by simp
    then show ?thesis using nk False b acc by simp
  qed
qed auto

subsection \<open>A second pass\<close>

lemma redactObject_keeps_kind:
  "redactObject v config = Inr w \<Longrightarrow> isObjectLike w = isObjectLike v"
  by (cases v) (auto split: sum.splits)

lemma stable_setProperty:
  assumes "list_all (stable_entry config) acc"
    and "k \<noteq> ''__proto__'' \<Longrightarrow> stable_entry config (k, w)"
  shows "list_all (stable_entry config) (setProperty acc k w)"
proof (cases "k = ''__proto__''")
  case True
  with assms(1) show ?thesis by (simp add: setProperty_proto)
next
  case False
  with assms set_setProperty [of acc k w] show ?thesis
    unfolding list_all_iff by blast
qed

lemma stable_pass:
  assumes "compiled config"
  shows "distinct (map fst es) \<Longrightarrow> list_all (stable_entry config) es \<Longrightarrow>
           fst ` set acc \<inter> fst ` set es = {} \<Longrightarrow>
           redactEntries es config acc = Inr (acc @ es)"
proof (induction es arbitrary: acc)
  case Nil
  then show ?case by simp
next
  case (Cons e es)
  obtain k w where e: "e = (k, w)" by (cases e)
  have st: "stable_entry config (k, w)" and sts: "list_all (stable_entry config) es"
    using Cons.prems(2) e by simp_all
  have np: "k \<noteq> ''__proto__''"
    using st by (simp add: stable_entry_def)
  have fresh: "k \<notin> fst ` set acc" and d: "distinct (map fst es)"
    using Cons.prems(1,3) e by auto
  have disj: "fst ` set (acc @ [(k, w)]) \<inter> fst ` set es = {}"
    using Cons.prems(1,3) e by auto
  have next_pass: "redactEntries es config (setProperty acc k w) = Inr (acc @ (k, w) # es)"
    using Cons.IH [OF d sts disj] setProperty_fresh [OF np fresh, of w] by simp
  obtain b where b: "isSensitiveValue w config = Inr b"
    using isSensitiveValue_total [OF assms] by blast
  show ?case
    using st next_pass b unfolding e
    by (auto simp: stable_entry_def split: if_splits)
qed

lemma redact_stable_aux:
  assumes "compiled config"
  shows "redactObject (v :: 'n json) config = Inr out \<Longrightarrow> redactObject out config = Inr out"
    and "redactItems (vs :: 'n json list) config = Inr ys \<Longrightarrow> redactItems ys config = Inr ys"
    and "redactEntries (es :: 'n entries) config acc = Inr r \<Longrightarrow> distinct (map fst acc) \<Longrightarrow>
           list_all (stable_entry config) acc \<Longrightarrow>
           distinct (map fst r) \<and> list_all (stable_entry config) r"
  using assms
proof (induction v config and vs config and es config acc arbitrary: out and ys and r
    rule: redactObject_redactItems_redactEntries.induct)
  case (5 items config)
  then show ?case by (auto split: sum.splits)
next
  case (6 es config)
  from "6.prems"(1) obtain r where r: "redactEntries es config [] = Inr r" and o: "out = JObj r"
    by (auto split: sum.splits)
  have "distinct (map fst r) \<and> list_all (stable_entry config) r"
    using "6.IH" [OF r _ _ "6.prems"(2)] by simp
  then have "redactEntries r config [] = Inr r"
    using stable_pass [OF "6.prems"(2), of r "[]"] by simp
  with o show ?case by simp
next
  case (8 item rest config)
  then show ?case by (auto split: sum.splits)
next
  case (10 key v rest config redacted)
  let ?t = "JStr (redactionText config) :: 'n json"
  note c = "10.prems"(4)
  show ?case
  proof (cases "isSensitiveKey key config")
    case True
    show ?thesis
    proof (cases "preserveKeys config")
      case p: True
      have rest: "redactEntries rest config (setProperty redacted key ?t) = Inr r"
        using "10.prems"(1) True p by simp
      have "list_all (stable_entry config) (setProperty redacted key ?t)"
        using "10.prems"(3) by (rule stable_setProperty) (simp add: stable_entry_def True p)
      then show ?thesis
        using "10.IH"(1) [OF True p rest distinct_setProperty [OF "10.prems"(2)] _ c] by blast
    next
      case p: False
      have "redactEntries rest config redacted = Inr r"
        using "10.prems"(1) True p by simp
      then show ?thesis
        using "10.IH"(2) [OF True p _ "10.prems"(2,3) c] by blast
    qed
  next
    case False
    show ?thesis
    proof (cases "isObjectLike v")
      case True
      from "10.prems"(1) False True obtain w where w: "redactObject v config = Inr w"
        and rest: "redactEntries rest config (setProperty redacted key w) = Inr r"
        by (auto split: sum.splits)
      have "redactObject w config = Inr w"
        using "10.IH"(3) [OF False True w c] .
      moreover have "isObjectLike w"
        using redactObject_keeps_kind [OF w] True by simp
      ultimately have "stable_entry config (key, w)" if "key \<noteq> ''__proto__''"
        using False that by (simp add: stable_entry_def)
      with "10.prems"(3) have "list_all (stable_entry config) (setProperty redacted key w)"
        by (rule stable_setProperty)
      then show ?thesis
        using "10.IH"(4) [OF False True w rest distinct_setProperty [OF "10.prems"(2)] _ c]
        by blast
    next
      case prim: False
      from "10.prems"(1) False prim obtain b where b: "isSensitiveValue v config = Inr b"
        by (auto split: sum.splits)
      show ?thesis
      proof (cases b)
        case True
        have rest: "redactEntries rest config (setProperty redacted key ?t) = Inr r"
          using "10.prems"(1) False prim b True by simp
        have "list_all (stable_entry config) (setProperty redacted key ?t)"
          using "10.prems"(3) by (rule stable_setProperty) (simp add: stable_entry_def False)
        then show ?thesis
          using "10.IH"(5) [OF False prim b True rest distinct_setProperty [OF "10.prems"(2)] _ c]
          by blast
      next
        case nb: False
        have rest: "redactEntries rest config (setProperty redacted key v) = Inr r"
          using "10.prems"(1) False prim b nb by simp
        have "list_all (stable_entry config) (setProperty redacted key v)"
          using "10.prems"(3)
          by (rule stable_setProperty) (simp add: stable_entry_def False prim b nb)
        then show ?thesis
          using "10.IH"(6) [OF False prim b nb rest distinct_setProperty [OF "10.prems"(2)] _ c]
          by blast
      qed
    qed
  qed
qed auto

subsection \<open>Searching and matching the entire string\<close>

lemma regex_test_iff:
  "regex_test re s \<longleftrightarrow> (\<exists>i\<le>length s. ends (source re) (ignoreCase re) s i \<noteq> [])"
  unfolding regex_test_def list_ex_iff
  by (auto simp del: upt_Suc simp: less_Suc_eq_le)

lemma ends_anchored:
  "ends (Seq Bol (Seq body Eol)) ic s i =
     (if i = 0 then filter (\<lambda>j. j = length s) (ends body ic s 0) else [])"
proof -
  have "concat (map (ends Eol ic s) js) = filter (\<lambda>j. j = length s) js" for js
    by (induction js) simp_all
  then show ?thesis by simp
qed

lemma anchored_test_is_full_match:
  assumes "source re = Seq Bol (Seq body Eol)"
  shows "regex_test re s = full_match re s"
proof -
  have "regex_test re s \<longleftrightarrow> filter (\<lambda>j. j = length s) (ends body (ignoreCase re) s 0) \<noteq> []"
    unfolding regex_test_iff assms ends_anchored by auto
  also have "\<dots> \<longleftrightarrow> length s \<in> set (ends body (ignoreCase re) s 0)"
    by (auto simp: filter_empty_conv)
  also have "\<dots> \<longleftrightarrow> full_match re s"
    unfolding full_match_def assms ends_anchored by auto
  finally show ?thesis .
qed

lemma isAnchored_test:
  "isAnchored p \<Longrightarrow> test p s = Inr (pattern_full_match p s)"
proof (cases p)
  case (PRegExp re)
  assume "isAnchored p"
  then obtain body where "source re = Seq Bol (Seq body Eol)"
    using PRegExp by (auto split: regex.splits)
  then show ?thesis
    using PRegExp anchored_test_is_full_match by simp
qed simp

lemma some_test_anchored:
  "list_all isAnchored ps \<Longrightarrow> some_test ps s = Inr (list_ex (\<lambda>p. pattern_full_match p s) ps)"
  by (induction ps) (simp_all add: isAnchored_test)

lemma isSensitiveValue_non_string: "(\<forall>s. v \<noteq> JStr s) \<Longrightarrow> isSensitiveValue v config = Inr False"
  by (cases v) simp_all

section \<open>Key classification\<close>

text \<open>The other default exact property names are classified as sensitive, as they are
  written: they are in lower case, or contain a default key pattern.\<close>

lemma isSensitiveKey_other_defaults:
  "list_all (\<lambda>k. isSensitiveKey k DEFAULT_CONFIG)
     [''password'', ''pin'', ''emailAddress'', ''uuid'', ''secretKey'', ''accessToken'',
      ''refreshToken'', ''apiKey'', ''privateKey'', ''cvv'', ''ssn'', ''socialSecurityNumber'']"
  by code_simp

text \<open>
  Claim C2. A key that equals an entry of the exact property names up to case is
  sensitive. The program lowercases the key and looks it up among the entries as they
  are written, and the default entries are written in camel case. The default entry
  \<^verbatim>\<open>creditCardNumber\<close> contains no default key pattern either: the key is not classified
  as sensitive, and a document that holds it passes through with the card number in it.
\<close>

theorem isSensitiveKey_creditCardNumber:
  "''creditCardNumber'' \<in> set (sensitiveProperties DEFAULT_CONFIG) \<and>
   isSensitiveKey ''creditCardNumber'' DEFAULT_CONFIG = False \<and>
   redactObject (JObj [(''creditCardNumber'', JStr ''4111 1111 1111 1111'')]) DEFAULT_CONFIG =
     Inr (JObj [(''creditCardNumber'', JStr ''4111 1111 1111 1111'')] :: int json)"
  by code_simp

section \<open>Value classification\<close>

text \<open>
  Claim C4, as amended. \<open>isSensitiveValue\<close> returns false for every value that is not
  a string. For a string and compiled patterns it returns true exactly when some pattern
  matches somewhere in the string: \<^verbatim>\<open>test\<close> searches, the match may start at any
  position. The result is that of a test against the entire string when every pattern is
  anchored at both ends, and every default pattern is.

  As the claim is worded, a test against the entire string for every rule set, it fails:
  the pattern \<^verbatim>\<open>\d{4,6}$\<close> of the help text accepts \<^verbatim>\<open>abc1234\<close>, which it does not
  match as a whole.
\<close>

theorem isSensitiveValue_search:
  "((\<forall>s. v \<noteq> JStr s) \<longrightarrow> isSensitiveValue v config = Inr False) \<and>
   (compiled config \<longrightarrow>
      isSensitiveValue (JStr s) config =
        Inr (\<exists>re. PRegExp re \<in> set (sensitivePatterns config) \<and>
               (\<exists>i\<le>length s. ends (source re) (ignoreCase re) s i \<noteq> []))) \<and>
   (list_all isAnchored (sensitivePatterns config) \<longrightarrow>
      isSensitiveValue v config = Inr (isSensitiveValue_spec v config)) \<and>
   list_all isAnchored (sensitivePatterns DEFAULT_CONFIG)"
proof -
  have "isSensitiveValue v config = Inr (isSensitiveValue_spec v config)"
    if "list_all isAnchored (sensitivePatterns config)"
    using that by (cases v) (simp_all add: some_test_anchored)
  moreover have "list_all isAnchored (sensitivePatterns DEFAULT_CONFIG)"
    by (simp add: DEFAULT_CONFIG_def pinPattern_def uuidPattern_def anchored_def)
  ultimately show ?thesis
    by (simp add: isSensitiveValue_non_string compiled_def some_test_compiled regex_test_iff)
qed

theorem isSensitiveValue_search_witness:
  "isSensitiveValue (JNum (1234::int)) DEFAULT_CONFIG = Inr False \<and>
   compiled searchConfig \<and>
   isSensitiveValue (JStr ''abc1234'' :: int json) searchConfig =
     Inr (\<exists>re. PRegExp re \<in> set (sensitivePatterns searchConfig) \<and>
            (\<exists>i\<le>length ''abc1234''. ends (source re) (ignoreCase re) ''abc1234'' i \<noteq> [])) \<and>
   list_all isAnchored (sensitivePatterns DEFAULT_CONFIG) \<and>
   isSensitiveValue (JStr ''abc1234'' :: int json) DEFAULT_CONFIG =
     Inr (isSensitiveValue_spec (JStr ''abc1234'' :: int json) DEFAULT_CONFIG)"
proof -
  have c: "compiled searchConfig"
    by (simp add: compiled_def searchConfig_def)
  have n: "\<forall>s. JNum (1234::int) \<noteq> JStr s"
    by simp
  from isSensitiveValue_search [of "JNum (1234::int)" DEFAULT_CONFIG]
    isSensitiveValue_search [of "JStr ''abc1234'' :: int json" searchConfig "''abc1234''"]
    isSensitiveValue_search [of "JStr ''abc1234'' :: int json" DEFAULT_CONFIG]
  show ?thesis using c n by blast
qed

theorem isSensitiveValue_not_full_match:
  "compiled searchConfig \<and>
   isSensitiveValue (JStr ''abc1234'' :: int json) searchConfig = Inr True \<and>
   isSensitiveValue_spec (JStr ''abc1234'' :: int json) searchConfig = False"
  by code_simp

section \<open>Loading the configuration\<close>

text \<open>
  Claim C5. Value patterns that a configuration file supplies are compiled to regular
  expressions when the rule set is built, and a string that is no pattern makes the
  construction fail. The program copies the strings into the configuration as they
  are: loading succeeds also with the string \<^verbatim>\<open>(\<close>, the patterns of the result are
  strings, and the first property value that is tested against them throws.
\<close>

theorem loadConfig_keeps_pattern_strings:
  "sensitivePatterns
     (loadConfig (\<lambda>p. Inr fileData) (parsesTo fileData fileConfig)
        (Some ''custom-config.json'')) =
     [PString ''[a-f0-9]{8}-[a-f0-9]{4}'', PString ''(''] \<and>
   redactObject (JObj [(''code'', JStr ''1234'')] :: int json)
     (loadConfig (\<lambda>p. Inr fileData) (parsesTo fileData fileConfig)
        (Some ''custom-config.json'')) =
     Inl TypeError"
  by code_simp

text \<open>
  Claim C6. The overrides are merged onto the defaults field by field: a field that the
  overrides define replaces the default, a field that they do not define keeps it. With
  only the key patterns \<^verbatim>\<open>["foo"]\<close> overridden, the key patterns are exactly that list and
  the exact property names and the value patterns are the defaults.
\<close>

theorem loadConfig_shallow_merge:
  assumes "p \<noteq> []" and "readFileSync p = Inr d" and "JSON_parse d = Inr u"
  shows "loadConfig readFileSync JSON_parse (Some p) = spread DEFAULT_CONFIG u \<and>
         sensitiveKeys (spread base u) =
           (case user_sensitiveKeys u of None \<Rightarrow> sensitiveKeys base | Some ks \<Rightarrow> ks) \<and>
         sensitiveProperties (spread base u) =
           (case user_sensitiveProperties u of None \<Rightarrow> sensitiveProperties base
            | Some ps \<Rightarrow> ps) \<and>
         sensitivePatterns (spread base u) =
           (case user_sensitivePatterns u of None \<Rightarrow> sensitivePatterns base
            | Some ss \<Rightarrow> map PString ss) \<and>
         redactionText (spread base u) =
           (case user_redactionText u of None \<Rightarrow> redactionText base | Some t \<Rightarrow> t) \<and>
         preserveKeys (spread base u) =
           (case user_preserveKeys u of None \<Rightarrow> preserveKeys base | Some b \<Rightarrow> b) \<and>
         (u = fooConfig \<longrightarrow>
            sensitiveKeys (loadConfig readFileSync JSON_parse (Some p)) = [''foo''] \<and>
            sensitiveProperties (loadConfig readFileSync JSON_parse (Some p)) =
              sensitiveProperties DEFAULT_CONFIG \<and>
            sensitivePatterns (loadConfig readFileSync JSON_parse (Some p)) =
              sensitivePatterns DEFAULT_CONFIG)"
  using assms by (simp add: loadConfig_def spread_def fooConfig_def)

theorem loadConfig_shallow_merge_witness:
  "sensitiveKeys
     (loadConfig (\<lambda>p. Inr fooData) (parsesTo fooData fooConfig) (Some ''custom-config.json'')) = [''foo''] \<and>
   sensitiveProperties
     (loadConfig (\<lambda>p. Inr fooData) (parsesTo fooData fooConfig) (Some ''custom-config.json'')) =
     sensitiveProperties DEFAULT_CONFIG \<and>
   sensitivePatterns
     (loadConfig (\<lambda>p. Inr fooData) (parsesTo fooData fooConfig) (Some ''custom-config.json'')) =
     sensitivePatterns DEFAULT_CONFIG"
proof -
  have "''custom-config.json'' \<noteq> []" by simp
  from loadConfig_shallow_merge
    [OF this, of "\<lambda>p. Inr fooData" fooData "parsesTo fooData fooConfig" fooConfig]
  show ?thesis by (simp add: fooConfig_def parsesTo_def)
qed

text \<open>
  Claim C7. When the configuration file is there and is not a parsable document,
  \<open>loadConfig\<close> returns the default configuration, unmodified; and the default
  configuration is usable: redaction under it returns a document for every input.
\<close>

theorem loadConfig_unparsable:
  assumes "readFileSync p = Inr d" and "JSON_parse d = Inl e"
  shows "loadConfig readFileSync JSON_parse (Some p) = DEFAULT_CONFIG \<and>
         (\<exists>out. redactObject v (loadConfig readFileSync JSON_parse (Some p)) = Inr out)"
proof -
  have l: "loadConfig readFileSync JSON_parse (Some p) = DEFAULT_CONFIG"
    using assms by (simp add: loadConfig_def)
  have "compiled DEFAULT_CONFIG"
    by (simp add: compiled_def DEFAULT_CONFIG_def)
  then show ?thesis
    using l redactObject_total by metis
qed

theorem loadConfig_unparsable_witness:
  "loadConfig (\<lambda>p. Inr ''{not json'') (parsesTo fooData fooConfig)
     (Some ''custom-config.json'') = DEFAULT_CONFIG \<and>
   (\<exists>out. redactObject (JObj [(''password'', JStr ''x''), (''keep'', JNum (1::int))])
      (loadConfig (\<lambda>p. Inr ''{not json'') (parsesTo fooData fooConfig)
         (Some ''custom-config.json'')) =
      Inr out)"
  by (rule loadConfig_unparsable [where d = "''{not json''" and e = SyntaxError])
    (simp_all add: parsesTo_def fooData_def)

section \<open>Recursive redaction\<close>

text \<open>
  A property whose key is sensitive is omitted without \<^verbatim>\<open>preserveKeys\<close>; with it, and for
  every key but \<^verbatim>\<open>__proto__\<close>, it is emitted with the redaction text as its value. Its value
  is not visited: the result is the same whatever the value is.
\<close>

lemma redactObject_sensitive_key:
  assumes "compiled config" and "isSensitiveKey key config"
  shows "\<exists>out. redactObject (JObj (ps @ (key, v) # qs)) config = Inr (JObj out) \<and>
           (if preserveKeys config
            then key \<noteq> ''__proto__'' \<longrightarrow> map_of out key = Some (JStr (redactionText config))
            else key \<notin> fst ` set out) \<and>
           redactObject (JObj (ps @ (key, v') # qs)) config = Inr (JObj out)"
proof -
  obtain res where res: "redactObject (JObj (ps @ (key, v) # qs)) config = Inr res"
    using redactObject_total [OF assms(1)] by blast
  then obtain out where out: "redactEntries (ps @ (key, v) # qs) config [] = Inr out"
    and r: "res = JObj out"
    by (auto split: sum.splits)
  have "redactEntries (ps @ (key, v') # qs) config [] = Inr out"
    using out redactEntries_value_irrelevant [OF assms(2)] by metis
  then have other: "redactObject (JObj (ps @ (key, v') # qs)) config = Inr (JObj out)"
    by simp
  have emitted: "map_of out key = Some (JStr (redactionText config))"
    if "preserveKeys config" and "key \<noteq> ''__proto__''"
    using redactEntries_preserved_key [OF out assms(2) that] by simp
  have omitted: "key \<notin> fst ` set out" if "\<not> preserveKeys config"
  proof -
    have "map_of out key = None"
      using redactEntries_omitted_key [OF out assms(2) that] by simp
    then show ?thesis by (simp add: map_of_eq_None_iff)
  qed
  show ?thesis
    using res r other emitted omitted by auto
qed

lemma redactObject_password_keep:
  "redactObject (JObj [(''password'', JStr ''x''), (''keep'', JNum (1::int))]) DEFAULT_CONFIG =
     Inr (JObj [(''keep'', JNum 1)]) \<and>
   redactObject (JObj [(''password'', JStr ''x''), (''keep'', JNum (1::int))])
     (DEFAULT_CONFIG\<lparr>preserveKeys := True\<rparr>) =
     Inr (JObj [(''password'', JStr ''[REDACTED]''), (''keep'', JNum 1)])"
  by code_simp

text \<open>
  Claim C1. For every key and every rule set, a property whose key is sensitive is
  emitted with the redaction text under \<^verbatim>\<open>preserveKeys\<close>. The program emits it by the
  assignment \<^verbatim>\<open>redacted[key] = config.redactionText\<close>, and for the key \<^verbatim>\<open>__proto__\<close> this
  assignment creates no property: under a rule set for which that key is sensitive, with
  \<^verbatim>\<open>preserveKeys\<close>, the document \<^verbatim>\<open>{"__proto__": "x", "keep": 1}\<close> becomes \<^verbatim>\<open>{"keep": 1}\<close>.
\<close>

theorem redactObject_proto_key_not_emitted:
  "compiled protoConfig \<and> preserveKeys protoConfig \<and> isSensitiveKey ''__proto__'' protoConfig \<and>
   redactObject (JObj [(''__proto__'', JStr ''x''), (''keep'', JNum (1::int))]) protoConfig =
     Inr (JObj [(''keep'', JNum 1)])"
  by code_simp

text \<open>
  Claim C3. An array is redacted element by element: the result is an array of the same
  length whose elements are the redacted elements, in order. Value patterns are not
  applied to array elements nor to a primitive at the top: a primitive is returned as
  it is, and so is an array of primitives; \<^verbatim>\<open>{"items": ["12345", "hello"]}\<close> is unchanged
  under the default rule set, whose first pattern matches \<^verbatim>\<open>12345\<close>.
\<close>

theorem redact_array:
  assumes "compiled config"
  shows "(\<exists>ys. redactObject (JArr items) config = Inr (JArr ys) \<and>
            length ys = length items \<and>
            list_all2 (\<lambda>item y. redactObject item config = Inr y) items ys) \<and>
         (\<not> isObjectLike v \<longrightarrow> redactObject v config = Inr v) \<and>
         (list_all (\<lambda>item. \<not> isObjectLike item) items \<longrightarrow>
            redactObject (JArr items) config = Inr (JArr items)) \<and>
         redactObject (JObj [(''items'', JArr [JStr ''12345'', JStr ''hello''])]) DEFAULT_CONFIG =
           Inr (JObj [(''items'', JArr [JStr ''12345'', JStr ''hello''])] :: int json)"
proof -
  obtain out where out: "redactObject (JArr items) config = Inr out"
    using redactObject_total [OF assms] by blast
  then obtain ys where ys: "redactItems items config = Inr ys" and "out = JArr ys"
    by (auto split: sum.splits)
  have "list_all2 (\<lambda>item y. redactObject item config = Inr y) items ys"
    using ys by (rule redactItems_list_all2)
  moreover from this have "length ys = length items"
    by (simp add: list_all2_lengthD)
  moreover have "redactObject (JArr items) config = Inr (JArr ys)"
    using ys by simp
  moreover have "redactObject (JObj [(''items'', JArr [JStr ''12345'', JStr ''hello''])]) DEFAULT_CONFIG =
           Inr (JObj [(''items'', JArr [JStr ''12345'', JStr ''hello''])] :: int json)"
    by code_simp
  ultimately show ?thesis
    by (simp add: redactObject_primitive redactItems_primitives)
qed

theorem redact_array_witness:
  "compiled DEFAULT_CONFIG \<and>
   isSensitiveValue (JStr ''12345'' :: int json) DEFAULT_CONFIG = Inr True \<and>
   (\<exists>ys. redactObject (JArr [JStr ''12345'', JObj [(''code'', JStr ''12345'')], JNum (7::int)])
            DEFAULT_CONFIG = Inr (JArr ys) \<and>
         length ys = 3 \<and>
         list_all2 (\<lambda>item y. redactObject item DEFAULT_CONFIG = Inr y)
           [JStr ''12345'', JObj [(''code'', JStr ''12345'')], JNum 7] ys) \<and>
   redactObject (JStr ''12345'' :: int json) DEFAULT_CONFIG = Inr (JStr ''12345'') \<and>
   redactObject (JArr [JStr ''12345'', JStr ''hello''] :: int json) DEFAULT_CONFIG =
     Inr (JArr [JStr ''12345'', JStr ''hello''])"
proof -
  have c: "compiled DEFAULT_CONFIG"
    by (simp add: compiled_def DEFAULT_CONFIG_def)
  have s: "isSensitiveValue (JStr ''12345'' :: int json) DEFAULT_CONFIG = Inr True"
    by code_simp
  from redact_array [OF c, of "[JStr ''12345'', JObj [(''code'', JStr ''12345'')], JNum (7::int)]"
      "JStr ''12345''"]
    redact_array [OF c, of "[JStr ''12345'', JStr ''hello''] :: int json list" "JStr ''12345''"]
  show ?thesis using c s by simp
qed

text \<open>
  Shape preservation for documents without the key \<^verbatim>\<open>__proto__\<close>: such a document, in
  which no key is sensitive and no property value is a sensitive value, is returned as it
  is. The document is a JavaScript value: each of its objects holds every property name
  once (\<open>wf_json\<close>).
\<close>

lemma redactObject_clean:
  assumes "compiled config" and "wf_json v" and "clean config v" and "plain_keys v"
  shows "redactObject v config = Inr v"
  using redact_clean_aux(1) [OF assms] .

text \<open>
  Claim C9. A document in which no key is sensitive and no property value is a sensitive
  value is returned as a deep-equal copy. The program copies a property by the
  assignment \<^verbatim>\<open>redacted[key] = \<dots>\<close>, and for the key \<^verbatim>\<open>__proto__\<close> this assignment creates
  no property: under the default rule set the document
  \<^verbatim>\<open>{"__proto__": {"isAdmin": true}, "name": "a"}\<close>, which has no sensitive key and no
  sensitive value, becomes \<^verbatim>\<open>{"name": "a"}\<close>.
\<close>

theorem redactObject_proto_key_dropped:
  "compiled DEFAULT_CONFIG \<and>
   wf_json (JObj [(''__proto__'', JObj [(''isAdmin'', JBool True)]), (''name'', JStr ''a'')]
     :: int json) \<and>
   clean DEFAULT_CONFIG
     (JObj [(''__proto__'', JObj [(''isAdmin'', JBool True)]), (''name'', JStr ''a'')]
       :: int json) \<and>
   redactObject
     (JObj [(''__proto__'', JObj [(''isAdmin'', JBool True)]), (''name'', JStr ''a'')]
       :: int json) DEFAULT_CONFIG =
     Inr (JObj [(''name'', JStr ''a'')])"
  by code_simp

text \<open>
  Claim C10. Every object that occurs in the output, at any depth, satisfies
  \<open>object_ok\<close>: without \<^verbatim>\<open>preserveKeys\<close> it has no sensitive key, with
  \<^verbatim>\<open>preserveKeys\<close> the value of every sensitive key is the redaction text.
\<close>

theorem redact_output_invariant:
  assumes "compiled config"
  shows "\<exists>out. redactObject v config = Inr out \<and> all_objects (object_ok config) out"
  using redactObject_total [OF assms, of v] redact_objects_ok_aux(1) by blast

theorem redact_output_invariant_witness:
  "compiled (DEFAULT_CONFIG\<lparr>preserveKeys := True\<rparr>) \<and>
   redactObject
     (JArr [JObj [(''login'', JObj [(''user'', JStr ''u''), (''password'', JStr ''x'')]),
                  (''note'', JObj [(''apiKey'', JNum (1::int)), (''text'', JStr ''hello'')])]])
     (DEFAULT_CONFIG\<lparr>preserveKeys := True\<rparr>) =
     Inr (JArr [JObj [(''login'', JStr ''[REDACTED]''),
                      (''note'', JObj [(''apiKey'', JStr ''[REDACTED]''), (''text'', JStr ''hello'')])]]) \<and>
   all_objects (object_ok (DEFAULT_CONFIG\<lparr>preserveKeys := True\<rparr>))
     (JArr [JObj [(''login'', JStr ''[REDACTED]''),
                  (''note'', JObj [(''apiKey'', JStr ''[REDACTED]''), (''text'', JStr ''hello'')])]]
       :: int json)"
proof -
  have c: "compiled (DEFAULT_CONFIG\<lparr>preserveKeys := True\<rparr>)"
    by (simp add: compiled_def DEFAULT_CONFIG_def)
  have e: "redactObject
     (JArr [JObj [(''login'', JObj [(''user'', JStr ''u''), (''password'', JStr ''x'')]),
                  (''note'', JObj [(''apiKey'', JNum (1::int)), (''text'', JStr ''hello'')])]])
     (DEFAULT_CONFIG\<lparr>preserveKeys := True\<rparr>) =
     Inr (JArr [JObj [(''login'', JStr ''[REDACTED]''),
                      (''note'', JObj [(''apiKey'', JStr ''[REDACTED]''), (''text'', JStr ''hello'')])]])"
    by code_simp
  from redact_output_invariant [OF c, of
      "JArr [JObj [(''login'', JObj [(''user'', JStr ''u''), (''password'', JStr ''x'')]),
                  (''note'', JObj [(''apiKey'', JNum (1::int)), (''text'', JStr ''hello'')])]]"]
  have "all_objects (object_ok (DEFAULT_CONFIG\<lparr>preserveKeys := True\<rparr>))
     (JArr [JObj [(''login'', JStr ''[REDACTED]''),
                  (''note'', JObj [(''apiKey'', JStr ''[REDACTED]''), (''text'', JStr ''hello'')])]]
       :: int json)"
    unfolding e by blast
  with c e show ?thesis by blast
qed

text \<open>
  Claim C8. Idempotence: redacting the output again returns the output. The witness
  takes a redaction text that is itself a sensitive value.
\<close>

theorem redact_idempotent:
  assumes "compiled config"
  shows "\<exists>out. redactObject v config = Inr out \<and> redactObject out config = Inr out"
  using redactObject_total [OF assms, of v] redact_stable_aux(1) [OF assms] by blast


theorem redact_idempotent_witness:
  "compiled (DEFAULT_CONFIG\<lparr>redactionText := ''0000'', preserveKeys := True\<rparr>) \<and>
   redactObject
     (JObj [(''password'', JStr ''x''), (''code'', JStr ''1234''),
            (''list'', JArr [JStr ''1234'', JObj [(''id'', JNum (5::int))]])])
     (DEFAULT_CONFIG\<lparr>redactionText := ''0000'', preserveKeys := True\<rparr>) =
     Inr (JObj [(''password'', JStr ''0000''), (''code'', JStr ''0000''),
                (''list'', JArr [JStr ''1234'', JObj [(''id'', JNum 5)]])]) \<and>
   redactObject
     (JObj [(''password'', JStr ''0000''), (''code'', JStr ''0000''),
            (''list'', JArr [JStr ''1234'', JObj [(''id'', JNum (5::int))]])])
     (DEFAULT_CONFIG\<lparr>redactionText := ''0000'', preserveKeys := True\<rparr>) =
     Inr (JObj [(''password'', JStr ''0000''), (''code'', JStr ''0000''),
                (''list'', JArr [JStr ''1234'', JObj [(''id'', JNum 5)]])])"
proof -
  have c: "compiled (DEFAULT_CONFIG\<lparr>redactionText := ''0000'', preserveKeys := True\<rparr>)"
    by (simp add: compiled_def DEFAULT_CONFIG_def)
  have e: "redactObject
     (JObj [(''password'', JStr ''x''), (''code'', JStr ''1234''),
            (''list'', JArr [JStr ''1234'', JObj [(''id'', JNum (5::int))]])])
     (DEFAULT_CONFIG\<lparr>redactionText := ''0000'', preserveKeys := True\<rparr>) =
     Inr (JObj [(''password'', JStr ''0000''), (''code'', JStr ''0000''),
                (''list'', JArr [JStr ''1234'', JObj [(''id'', JNum 5)]])])"
    by code_simp
  from redact_idempotent [OF c, of
      "JObj [(''password'', JStr ''x''), (''code'', JStr ''1234''),
             (''list'', JArr [JStr ''1234'', JObj [(''id'', JNum (5::int))]])]"]
  have "redactObject
     (JObj [(''password'', JStr ''0000''), (''code'', JStr ''0000''),
            (''list'', JArr [JStr ''1234'', JObj [(''id'', JNum (5::int))]])])
     (DEFAULT_CONFIG\<lparr>redactionText := ''0000'', preserveKeys := True\<rparr>) =
     Inr (JObj [(''password'', JStr ''0000''), (''code'', JStr ''0000''),
                (''list'', JArr [JStr ''1234'', JObj [(''id'', JNum 5)]])])"
    unfolding e by blast
  with c e show ?thesis by blast
qed

end
